theory Spec2Isabelle
  imports Main "HOL-Library.Sublist"
begin

section \<open>The registration layer of kodo-python: \<open>create_helpers.hpp\<close>\<close>

text \<open>
  \<open>src/kodo_python/create_helpers.hpp\<close> holds four function templates. Each one only
  calls the registrars \<open>factory\<close>, \<open>encoder\<close> and \<open>decoder\<close> (declared in
  \<open>factory.hpp\<close>, \<open>encoder.hpp\<close> and \<open>decoder.hpp\<close>) in a fixed order, with fixed
  template arguments and with the caller's \<open>stack\<close> string.
\<close>

subsection \<open>Template arguments\<close>

text \<open>The four field types of \<open>fifi\<close> that the header includes and instantiates.\<close>

datatype field = binary | binary4 | binary8 | binary16

text \<open>The members of a \<open>meta::typelist\<close>; the header uses \<open>kodo::enable_trace\<close> only.\<close>

datatype capability = enable_trace

text \<open>The three registrar templates the header calls.\<close>

datatype kind = Factory | Encoder | Decoder

text \<open>
  One registrar call \<open>kind<Coder, Field, meta::typelist<caps...>>(stack)\<close>. The coder
  template is an opaque value of type \<open>'c\<close>.
\<close>

datatype 'c registration =
  Registration (reg_kind: kind) (reg_coder: 'c) (reg_field: field)
    (reg_caps: "capability list") (reg_stack: string)

subsection \<open>Statements that may throw\<close>

text \<open>
  The registrars act on the registry of the host runtime, a global that the header
  never names. A statement is a function from the state of the host to a possibly
  raised exception and the state it leaves. A C++ exception does not undo what was
  done to a global before it was thrown, so the state is returned in both cases.
\<close>

type_synonym ('st, 'e) stmt = "'st \<Rightarrow> 'e option \<times> 'st"

text \<open>
  The bodies of the registrars are not part of the header: the host is a parameter,
  giving for each registrar call its effect on the state.
\<close>

type_synonym ('c, 'st, 'e) host = "'c registration \<Rightarrow> ('st, 'e) stmt"

text \<open>
  \<open>s1; s2\<close> in a function body without \<open>try\<close>: when \<open>s1\<close> throws, \<open>s2\<close> is not
  run and the exception leaves the function.
\<close>

definition andthen :: "('st, 'e) stmt \<Rightarrow> ('st, 'e) stmt \<Rightarrow> ('st, 'e) stmt" where
  "andthen s1 s2 st =
     (case s1 st of
        (None, st') \<Rightarrow> s2 st'
      | (Some e, st') \<Rightarrow> (Some e, st'))"

subsection \<open>The registrar calls\<close>

definition factory ::
  "('c, 'st, 'e) host \<Rightarrow> 'c \<Rightarrow> field \<Rightarrow> capability list \<Rightarrow> string \<Rightarrow> ('st, 'e) stmt" where
  "factory h Coder Fld caps stack = h (Registration Factory Coder Fld caps stack)"

definition encoder ::
  "('c, 'st, 'e) host \<Rightarrow> 'c \<Rightarrow> field \<Rightarrow> capability list \<Rightarrow> string \<Rightarrow> ('st, 'e) stmt" where
  "encoder h Coder Fld caps stack = h (Registration Encoder Coder Fld caps stack)"

definition decoder ::
  "('c, 'st, 'e) host \<Rightarrow> 'c \<Rightarrow> field \<Rightarrow> capability list \<Rightarrow> string \<Rightarrow> ('st, 'e) stmt" where
  "decoder h Coder Fld caps stack = h (Registration Decoder Coder Fld caps stack)"

subsection \<open>The four functions of the header\<close>

definition create_factory_and_encoder ::
  "('c, 'st, 'e) host \<Rightarrow> 'c \<Rightarrow> field \<Rightarrow> string \<Rightarrow> ('st, 'e) stmt" where
  "create_factory_and_encoder h Coder Fld stack =
     andthen (factory h Coder Fld [enable_trace] stack)
             (encoder h Coder Fld [enable_trace] stack)"

definition create_factory_and_decoder ::
  "('c, 'st, 'e) host \<Rightarrow> 'c \<Rightarrow> field \<Rightarrow> string \<Rightarrow> ('st, 'e) stmt" where
  "create_factory_and_decoder h Coder Fld stack =
     andthen (factory h Coder Fld [enable_trace] stack)
             (decoder h Coder Fld [enable_trace] stack)"

definition create_encoder :: "('c, 'st, 'e) host \<Rightarrow> 'c \<Rightarrow> string \<Rightarrow> ('st, 'e) stmt" where
  "create_encoder h Coder stack =
     andthen (create_factory_and_encoder h Coder binary stack)
    (andthen (create_factory_and_encoder h Coder binary4 stack)
    (andthen (create_factory_and_encoder h Coder binary8 stack)
             (create_factory_and_encoder h Coder binary16 stack)))"

definition create_decoder :: "('c, 'st, 'e) host \<Rightarrow> 'c \<Rightarrow> string \<Rightarrow> ('st, 'e) stmt" where
  "create_decoder h Coder stack =
     andthen (create_factory_and_decoder h Coder binary stack)
    (andthen (create_factory_and_decoder h Coder binary4 stack)
    (andthen (create_factory_and_decoder h Coder binary8 stack)
             (create_factory_and_decoder h Coder binary16 stack)))"

subsection \<open>Observing the registrar calls\<close>

text \<open>
  \<open>traced h\<close> behaves as the host \<open>h\<close> and also appends every registrar call, with the
  exception it raised if any, to a log kept beside the state of \<open>h\<close>.
\<close>

definition traced ::
  "('c, 'st, 'e) host \<Rightarrow> ('c, ('c registration \<times> 'e option) list \<times> 'st, 'e) host" where
  "traced h r = (\<lambda>(log, st). case h r st of (res, st') \<Rightarrow> (res, (log @ [(r, res)], st')))"

text \<open>The calls of a log that returned normally, in the order they were made.\<close>

definition registered :: "('c registration \<times> 'e option) list \<Rightarrow> 'c registration list" where
  "registered log = map fst (filter (\<lambda>x. snd x = None) log)"

text \<open>
  A caller of the header: any of its four functions, at any arguments. \<open>invoke_all\<close>
  runs a list of such calls one after the other, going on after a call that threw, as
  a caller that catches the exception would.
\<close>

datatype 'c invocation =
    CreateEncoder 'c string
  | CreateDecoder 'c string
  | CreateFactoryAndEncoder 'c field string
  | CreateFactoryAndDecoder 'c field string

fun invoke :: "('c, 'st, 'e) host \<Rightarrow> 'c invocation \<Rightarrow> ('st, 'e) stmt" where
  "invoke h (CreateEncoder Coder stack) = create_encoder h Coder stack"
| "invoke h (CreateDecoder Coder stack) = create_decoder h Coder stack"
| "invoke h (CreateFactoryAndEncoder Coder Fld stack) =
     create_factory_and_encoder h Coder Fld stack"
| "invoke h (CreateFactoryAndDecoder Coder Fld stack) =
     create_factory_and_decoder h Coder Fld stack"

fun invoke_all :: "('c, 'st, 'e) host \<Rightarrow> 'c invocation list \<Rightarrow> 'st \<Rightarrow> 'st" where
  "invoke_all h [] st = st"
| "invoke_all h (i # is) st = invoke_all h is (snd (invoke h i st))"

subsection \<open>The host registry\<close>

text \<open>
  The bodies of \<open>factory\<close>, \<open>encoder\<close> and \<open>decoder\<close> (\<open>factory.hpp\<close>,
  \<open>encoder.hpp\<close>, \<open>decoder.hpp\<close>) and \<open>resolve_field_name\<close>
  (\<open>resolve_field_name.hpp\<close>) are not among the sources. What follows is the host the
  spec describes, one instance of the parameter \<open>h\<close> above.
\<close>

text \<open>
  Modelled from the spec: the missing \<open>resolve_field_name\<close>. The spec gives one fixed
  textual tag per field variant, and the binding names \<open>full_rlnc_binary_factory\<close>,
  \<open>full_rlnc_binary4_factory\<close>, \<open>full_rlnc_binary8_factory\<close>,
  \<open>full_rlnc_binary16_factory\<close> for the stack identifier \<open>full_rlnc\<close>.
\<close>

fun field_tag :: "field \<Rightarrow> string" where
  "field_tag binary = ''binary''"
| "field_tag binary4 = ''binary4''"
| "field_tag binary8 = ''binary8''"
| "field_tag binary16 = ''binary16''"

text \<open>
  Modelled from the spec: the missing role tags, \<open>factory\<close>, \<open>encoder\<close> and
  \<open>decoder\<close>, as they end the binding names the spec lists.
\<close>

fun kind_tag :: "kind \<Rightarrow> string" where
  "kind_tag Factory = ''factory''"
| "kind_tag Encoder = ''encoder''"
| "kind_tag Decoder = ''decoder''"

text \<open>
  Modelled from the spec: the missing name derivation. The name of a binding is
  derived from the stack identifier, the tag of the field and the tag of the role,
  and from nothing else.
\<close>

definition binding_name :: "'c registration \<Rightarrow> string" where
  "binding_name r = reg_stack r @ ''_'' @ field_tag (reg_field r) @ ''_'' @ kind_tag (reg_kind r)"

text \<open>
  Modelled from the spec: the one failure of the missing registrars, the naming
  collision, carrying the name that is already bound.
\<close>

datatype error = NamingCollision string

text \<open>
  The registry of the host runtime: the names bound so far with the type bound to
  each, in insertion order.
\<close>

type_synonym 'c registry = "(string \<times> 'c registration) list"

text \<open>
  Modelled from the spec: the missing host operation "register native type T under
  name N", which fails loudly on a name that is already bound and has no other
  effect. A failed registration leaves the registry as it was. The spec calls a role
  registered without its factory a programming error of the caller, not a failure of
  the registrar, so the host does not look for the factory.
\<close>

definition host_register :: "('c, 'c registry, error) host" where
  "host_register r reg =
     (if binding_name r \<in> set (map fst reg)
      then (Some (NamingCollision (binding_name r)), reg)
      else (None, reg @ [(binding_name r, r)]))"

subsection \<open>Proof devices\<close>

text \<open>
  The definitions below are not in the header. The lemmas after them show that each
  function of the header is \<open>run_all\<close> on its list of calls; they serve the proofs
  only.
\<close>

text \<open>A list of registrar calls made one after the other until one throws.\<close>

fun run_all :: "('c, 'st, 'e) host \<Rightarrow> 'c registration list \<Rightarrow> ('st, 'e) stmt" where
  "run_all h [] st = (None, st)"
| "run_all h (r # rs) st =
     (case h r st of
        (None, st') \<Rightarrow> run_all h rs st'
      | (Some e, st') \<Rightarrow> (Some e, st'))"

text \<open>The calls that \<open>run_all\<close> makes, each with its outcome.\<close>

fun attempts ::
  "('c, 'st, 'e) host \<Rightarrow> 'c registration list \<Rightarrow> 'st \<Rightarrow> ('c registration \<times> 'e option) list" where
  "attempts h [] st = []"
| "attempts h (r # rs) st =
     (case h r st of
        (None, st') \<Rightarrow> (r, None) # attempts h rs st'
      | (Some e, st') \<Rightarrow> [(r, Some e)])"

text \<open>The registrar calls in the body of each function of the header, in textual order.\<close>

definition pair_calls :: "kind \<Rightarrow> 'c \<Rightarrow> field \<Rightarrow> string \<Rightarrow> 'c registration list" where
  "pair_calls role Coder Fld stack =
     [Registration Factory Coder Fld [enable_trace] stack,
      Registration role Coder Fld [enable_trace] stack]"

definition driver_calls :: "kind \<Rightarrow> 'c \<Rightarrow> string \<Rightarrow> 'c registration list" where
  "driver_calls role Coder stack =
     pair_calls role Coder binary stack @ pair_calls role Coder binary4 stack @
     pair_calls role Coder binary8 stack @ pair_calls role Coder binary16 stack"

fun calls_of :: "'c invocation \<Rightarrow> 'c registration list" where
  "calls_of (CreateEncoder Coder stack) = driver_calls Encoder Coder stack"
| "calls_of (CreateDecoder Coder stack) = driver_calls Decoder Coder stack"
| "calls_of (CreateFactoryAndEncoder Coder Fld stack) = pair_calls Encoder Coder Fld stack"
| "calls_of (CreateFactoryAndDecoder Coder Fld stack) = pair_calls Decoder Coder Fld stack"

text \<open>Every call of a role registrar in the list comes after the factory call it matches.\<close>

definition as_factory :: "'c registration \<Rightarrow> 'c registration" where
  "as_factory r = Registration Factory (reg_coder r) (reg_field r) (reg_caps r) (reg_stack r)"

definition factory_first :: "'c registration list \<Rightarrow> bool" where
  "factory_first rs \<longleftrightarrow>
     (\<forall>j<length rs. reg_kind (rs ! j) \<noteq> Factory \<longrightarrow> (\<exists>i<j. rs ! i = as_factory (rs ! j)))"

section \<open>Sequencing lemmas\<close>

lemma run_all_single: "run_all h [r] = h r"
  by (rule ext) (simp split: prod.splits option.splits)

lemma andthen_run_all: "andthen (run_all h xs) (run_all h ys) = run_all h (xs @ ys)"
proof (rule ext)
  fix st
  show "andthen (run_all h xs) (run_all h ys) st = run_all h (xs @ ys) st"
  proof (induction xs arbitrary: st)
    case Nil
    show ?case by (simp add: andthen_def)
  next
    case (Cons x xs)
    have unfold: "andthen (run_all h (x # xs)) (run_all h ys) st =
        (case h x st of
           (None, st') \<Rightarrow> andthen (run_all h xs) (run_all h ys) st'
         | (Some e, st') \<Rightarrow> (Some e, st'))"
      by (simp add: andthen_def split: prod.splits option.splits)
    show ?case
      unfolding unfold by (simp add: Cons.IH split: prod.splits option.splits)
  qed
qed

lemma create_factory_and_encoder_run:
  "create_factory_and_encoder h Coder Fld stack = run_all h (pair_calls Encoder Coder Fld stack)"
proof -
  have "andthen (run_all h [Registration Factory Coder Fld [enable_trace] stack])
          (run_all h [Registration Encoder Coder Fld [enable_trace] stack]) =
        run_all h (pair_calls Encoder Coder Fld stack)"
    unfolding andthen_run_all by (simp add: pair_calls_def)
  then show ?thesis
    by (simp only: create_factory_and_encoder_def factory_def encoder_def run_all_single)
qed

lemma create_factory_and_decoder_run:
  "create_factory_and_decoder h Coder Fld stack = run_all h (pair_calls Decoder Coder Fld stack)"
proof -
  have "andthen (run_all h [Registration Factory Coder Fld [enable_trace] stack])
          (run_all h [Registration Decoder Coder Fld [enable_trace] stack]) =
        run_all h (pair_calls Decoder Coder Fld stack)"
    unfolding andthen_run_all by (simp add: pair_calls_def)
  then show ?thesis
    by (simp only: create_factory_and_decoder_def factory_def decoder_def run_all_single)
qed

lemma create_encoder_run: "create_encoder h Coder stack = run_all h (driver_calls Encoder Coder stack)"
  by (simp only: create_encoder_def create_factory_and_encoder_run andthen_run_all
      driver_calls_def)

lemma create_decoder_run: "create_decoder h Coder stack = run_all h (driver_calls Decoder Coder stack)"
  by (simp only: create_decoder_def create_factory_and_decoder_run andthen_run_all
      driver_calls_def)

lemma invoke_run: "invoke h i = run_all h (calls_of i)"
  by (cases i)
    (simp_all add: create_encoder_run create_decoder_run create_factory_and_encoder_run
      create_factory_and_decoder_run)

section \<open>The registrar calls of a traced run\<close>

lemma run_all_traced:
  "run_all (traced h) rs (log, st) =
     (fst (run_all h rs st), (log @ attempts h rs st, snd (run_all h rs st)))"
  by (induction rs arbitrary: log st) (auto simp: traced_def split: prod.splits option.splits)

lemma attempts_ok:
  "fst (run_all h rs st) = None \<Longrightarrow> attempts h rs st = map (\<lambda>r. (r, None)) rs"
  by (induction rs arbitrary: st) (auto split: prod.splits option.splits)

lemma attempts_length: "length (attempts h rs st) \<le> length rs"
  by (induction rs arbitrary: st) (auto split: prod.splits option.splits)

lemma attempts_nonempty: "rs \<noteq> [] \<Longrightarrow> attempts h rs st \<noteq> []"
  by (cases rs) (auto split: prod.splits option.splits)

lemma attempts_calls: "map fst (attempts h rs st) = take (length (attempts h rs st)) rs"
  by (induction rs arbitrary: st) (auto split: prod.splits option.splits)

lemma attempts_fail:
  "fst (run_all h rs st) = Some e \<Longrightarrow>
   \<exists>k<length rs. attempts h rs st = map (\<lambda>r. (r, None)) (take k rs) @ [(rs ! k, Some e)] \<and>
      snd (run_all h rs st) = foldl (\<lambda>s r. snd (h r s)) st (take (Suc k) rs)"
proof (induction rs arbitrary: st)
  case Nil
  then show ?case by simp
next
  case (Cons r rs)
  obtain res st' where hr: "h r st = (res, st')" by (cases "h r st")
  show ?case
  proof (cases res)
    case None
    with Cons.prems hr have "fst (run_all h rs st') = Some e" by simp
    from Cons.IH[OF this] obtain k where k: "k < length rs"
      "attempts h rs st' = map (\<lambda>r. (r, None)) (take k rs) @ [(rs ! k, Some e)]"
      "snd (run_all h rs st') = foldl (\<lambda>s r. snd (h r s)) st' (take (Suc k) rs)"
      by blast
    show ?thesis
      by (rule exI[of _ "Suc k"]) (use k hr None in simp)
  next
    case (Some e')
    with Cons.prems hr have "e' = e" by simp
    show ?thesis
      by (rule exI[of _ 0]) (use hr Some \<open>e' = e\<close> in simp)
  qed
qed

lemma registered_attempts: "\<exists>n. registered (attempts h rs st) = take n rs"
proof (induction rs arbitrary: st)
  case Nil
  then show ?case by (simp add: registered_def)
next
  case (Cons r rs)
  obtain res st' where hr: "h r st = (res, st')" by (cases "h r st")
  show ?case
  proof (cases res)
    case None
    from Cons.IH[of st'] obtain n where "registered (attempts h rs st') = take n rs" by blast
    then have "registered (attempts h (r # rs) st) = take (Suc n) (r # rs)"
      using hr None by (simp add: registered_def)
    then show ?thesis by blast
  next
    case (Some e)
    then have "registered (attempts h (r # rs) st) = take 0 (r # rs)"
      using hr by (simp add: registered_def)
    then show ?thesis by blast
  qed
qed

lemma create_encoder_traced:
  "create_encoder (traced h) Coder stack (log, st) =
     (fst (run_all h (driver_calls Encoder Coder stack) st),
      (log @ attempts h (driver_calls Encoder Coder stack) st,
       snd (run_all h (driver_calls Encoder Coder stack) st)))"
  by (simp only: create_encoder_run run_all_traced)

lemma create_decoder_traced:
  "create_decoder (traced h) Coder stack (log, st) =
     (fst (run_all h (driver_calls Decoder Coder stack) st),
      (log @ attempts h (driver_calls Decoder Coder stack) st,
       snd (run_all h (driver_calls Decoder Coder stack) st)))"
  by (simp only: create_decoder_run run_all_traced)

lemma length_driver_calls: "length (driver_calls role Coder stack) = 8"
  by (simp add: driver_calls_def pair_calls_def)

lemma driver_calls_list:
  "driver_calls role Coder stack =
    [Registration Factory Coder binary [enable_trace] stack,
     Registration role Coder binary [enable_trace] stack,
     Registration Factory Coder binary4 [enable_trace] stack,
     Registration role Coder binary4 [enable_trace] stack,
     Registration Factory Coder binary8 [enable_trace] stack,
     Registration role Coder binary8 [enable_trace] stack,
     Registration Factory Coder binary16 [enable_trace] stack,
     Registration role Coder binary16 [enable_trace] stack]"
  by (simp add: driver_calls_def pair_calls_def)

lemma create_factory_and_encoder_traced:
  "create_factory_and_encoder (traced h) Coder Fld stack (log, st) =
     (fst (run_all h (pair_calls Encoder Coder Fld stack) st),
      (log @ attempts h (pair_calls Encoder Coder Fld stack) st,
       snd (run_all h (pair_calls Encoder Coder Fld stack) st)))"
  by (simp only: create_factory_and_encoder_run run_all_traced)

lemma create_factory_and_decoder_traced:
  "create_factory_and_decoder (traced h) Coder Fld stack (log, st) =
     (fst (run_all h (pair_calls Decoder Coder Fld stack) st),
      (log @ attempts h (pair_calls Decoder Coder Fld stack) st,
       snd (run_all h (pair_calls Decoder Coder Fld stack) st)))"
  by (simp only: create_factory_and_decoder_run run_all_traced)

lemma attempts_subset: "x \<in> set (attempts h rs st) \<Longrightarrow> fst x \<in> set rs"
proof -
  assume "x \<in> set (attempts h rs st)"
  then have "fst x \<in> set (map fst (attempts h rs st))" by simp
  then have "fst x \<in> set (take (length (attempts h rs st)) rs)"
    by (simp only: attempts_calls[symmetric])
  then show ?thesis by (rule in_set_takeD)
qed

lemma pair_calls_caps: "r \<in> set (pair_calls role Coder Fld stack) \<Longrightarrow> reg_caps r = [enable_trace]"
  by (auto simp: pair_calls_def)

lemma driver_calls_caps: "r \<in> set (driver_calls role Coder stack) \<Longrightarrow> reg_caps r = [enable_trace]"
  by (auto simp: driver_calls_def dest: pair_calls_caps)

section \<open>Factory calls come first\<close>

lemma registered_append: "registered (a @ b) = registered a @ registered b"
  by (simp add: registered_def)

lemma factory_first_append:
  assumes xs: "factory_first xs" and ys: "factory_first ys"
  shows "factory_first (xs @ ys)"
  unfolding factory_first_def
proof (intro allI impI)
  fix j
  assume j: "j < length (xs @ ys)" and role: "reg_kind ((xs @ ys) ! j) \<noteq> Factory"
  show "\<exists>i<j. (xs @ ys) ! i = as_factory ((xs @ ys) ! j)"
  proof (cases "j < length xs")
    case True
    with role have "reg_kind (xs ! j) \<noteq> Factory" by (simp add: nth_append)
    with xs True obtain i where "i < j" "xs ! i = as_factory (xs ! j)"
      unfolding factory_first_def by blast
    with True have "i < j \<and> (xs @ ys) ! i = as_factory ((xs @ ys) ! j)"
      by (simp add: nth_append)
    then show ?thesis by blast
  next
    case False
    define j' where "j' = j - length xs"
    from False j have j': "j' < length ys" "(xs @ ys) ! j = ys ! j'"
      by (simp_all add: j'_def nth_append)
    with role have "reg_kind (ys ! j') \<noteq> Factory" by simp
    with ys j' obtain i where i: "i < j'" "ys ! i = as_factory (ys ! j')"
      unfolding factory_first_def by blast
    from i False have "length xs + i < j" by (simp add: j'_def)
    moreover have "(xs @ ys) ! (length xs + i) = as_factory ((xs @ ys) ! j)"
      using i j' by simp
    ultimately show ?thesis by blast
  qed
qed

lemma factory_first_take:
  assumes "factory_first xs"
  shows "factory_first (take n xs)"
  unfolding factory_first_def
proof (intro allI impI)
  fix j
  assume j: "j < length (take n xs)" and role: "reg_kind (take n xs ! j) \<noteq> Factory"
  then have jn: "j < n" "j < length xs" by simp_all
  with role have "reg_kind (xs ! j) \<noteq> Factory" by simp
  with assms jn obtain i where i: "i < j" "xs ! i = as_factory (xs ! j)"
    unfolding factory_first_def by blast
  with jn have "take n xs ! i = as_factory (take n xs ! j)" by simp
  with i show "\<exists>i<j. take n xs ! i = as_factory (take n xs ! j)" by blast
qed

lemma factory_first_pair: "factory_first (pair_calls role Coder Fld stack)"
  unfolding factory_first_def
proof (intro allI impI)
  fix j
  assume j: "j < length (pair_calls role Coder Fld stack)"
    and role: "reg_kind (pair_calls role Coder Fld stack ! j) \<noteq> Factory"
  from j have "j = 0 \<or> j = 1" by (auto simp: pair_calls_def)
  with role have "j = 1" by (auto simp: pair_calls_def)
  then have "0 < j \<and> pair_calls role Coder Fld stack ! 0 =
      as_factory (pair_calls role Coder Fld stack ! j)"
    by (simp add: pair_calls_def as_factory_def)
  then show "\<exists>i<j. pair_calls role Coder Fld stack ! i =
      as_factory (pair_calls role Coder Fld stack ! j)"
    by blast
qed

lemma factory_first_driver: "factory_first (driver_calls role Coder stack)"
  unfolding driver_calls_def by (intro factory_first_append factory_first_pair)

lemma factory_first_calls_of: "factory_first (calls_of i)"
  by (cases i) (simp_all add: factory_first_driver factory_first_pair)

lemma factory_first_Nil: "factory_first []"
  by (simp add: factory_first_def)

lemma invoke_traced:
  "invoke (traced h) i (log, st) =
     (fst (run_all h (calls_of i) st),
      (log @ attempts h (calls_of i) st, snd (run_all h (calls_of i) st)))"
  by (simp only: invoke_run run_all_traced)

lemma invoke_all_traced_grows:
  "\<exists>added. fst (invoke_all (traced h) invs (log, st)) = log @ added \<and>
     factory_first (registered added)"
proof (induction invs arbitrary: log st)
  case Nil
  show ?case by (simp add: registered_def factory_first_Nil)
next
  case (Cons i invs)
  define a where "a = attempts h (calls_of i) st"
  define st' where "st' = snd (run_all h (calls_of i) st)"
  have step: "snd (invoke (traced h) i (log, st)) = (log @ a, st')"
    by (simp add: invoke_traced a_def st'_def)
  from Cons.IH[of "log @ a" st'] obtain b where
    b: "fst (invoke_all (traced h) invs (log @ a, st')) = (log @ a) @ b"
       "factory_first (registered b)"
    by blast
  obtain n where "registered a = take n (calls_of i)"
    unfolding a_def using registered_attempts[of h "calls_of i" st] by blast
  then have "factory_first (registered a)"
    by (simp add: factory_first_take factory_first_calls_of)
  with b(2) have "factory_first (registered (a @ b))"
    by (simp add: registered_append factory_first_append)
  moreover have "fst (invoke_all (traced h) (i # invs) (log, st)) = log @ (a @ b)"
    using b(1) step by simp
  ultimately show ?case by blast
qed

lemma invoke_all_append: "invoke_all h (xs @ ys) st = invoke_all h ys (invoke_all h xs st)"
  by (induction xs arbitrary: st) simp_all

section \<open>The calls of two invocations\<close>

lemma take_prefix_total: "prefix (take n xs) (take m xs) \<or> prefix (take m xs) (take n xs)"
proof (cases "n \<le> m")
  case True
  then have "take n xs = take n (take m xs)" by (simp add: min_def)
  then have "prefix (take n xs) (take m xs)" by (metis take_is_prefix)
  then show ?thesis by simp
next
  case False
  then have "take m xs = take m (take n xs)" by (simp add: min_def)
  then have "prefix (take m xs) (take n xs)" by (metis take_is_prefix)
  then show ?thesis by simp
qed

lemma pair_calls_args:
  "r \<in> set (pair_calls role Coder Fld stack) \<Longrightarrow> reg_stack r = stack \<and> reg_coder r = Coder"
  by (auto simp: pair_calls_def)

lemma driver_calls_args:
  "r \<in> set (driver_calls role Coder stack) \<Longrightarrow> reg_stack r = stack \<and> reg_coder r = Coder"
  by (auto simp: driver_calls_def dest: pair_calls_args)

lemma attempts_determined:
  fixes h1 :: "('c, 's1, 'e1) host" and h2 :: "('c, 's2, 'e2) host"
  shows "(prefix (map fst (attempts h1 rs st1)) (map fst (attempts h2 rs st2)) \<or>
          prefix (map fst (attempts h2 rs st2)) (map fst (attempts h1 rs st1))) \<and>
         (fst (run_all h1 rs st1) = None \<and> fst (run_all h2 rs st2) = None \<longrightarrow>
            map fst (attempts h1 rs st1) = map fst (attempts h2 rs st2)) \<and>
         (\<forall>r \<in> set (map fst (attempts h1 rs st1)). r \<in> set rs)"
proof (intro conjI impI ballI)
  show "prefix (map fst (attempts h1 rs st1)) (map fst (attempts h2 rs st2)) \<or>
        prefix (map fst (attempts h2 rs st2)) (map fst (attempts h1 rs st1))"
    by (simp only: attempts_calls take_prefix_total)
next
  assume "fst (run_all h1 rs st1) = None \<and> fst (run_all h2 rs st2) = None"
  then show "map fst (attempts h1 rs st1) = map fst (attempts h2 rs st2)"
    by (simp add: attempts_ok comp_def)
next
  fix r assume "r \<in> set (map fst (attempts h1 rs st1))"
  then have "r \<in> set (take (length (attempts h1 rs st1)) rs)"
    by (simp only: attempts_calls[symmetric])
  then show "r \<in> set rs" by (rule in_set_takeD)
qed

section \<open>The host registry: bound names stay bound\<close>

lemma host_register_keeps:
  "n \<in> set (map fst reg) \<Longrightarrow> n \<in> set (map fst (snd (host_register r reg)))"
  by (simp add: host_register_def)

lemma run_all_host_keeps:
  "n \<in> set (map fst reg) \<Longrightarrow> n \<in> set (map fst (snd (run_all host_register rs reg)))"
proof (induction rs arbitrary: reg)
  case Nil
  then show ?case by simp
next
  case (Cons r rs)
  obtain res reg' where step: "host_register r reg = (res, reg')"
    by (cases "host_register r reg")
  with host_register_keeps[OF Cons.prems, of r] have keep: "n \<in> set (map fst reg')" by simp
  show ?case
  proof (cases res)
    case None
    with step Cons.IH[OF keep] show ?thesis by simp
  next
    case (Some e)
    with step keep show ?thesis by simp
  qed
qed

lemma host_register_binds:
  "binding_name r \<in> set (map fst (snd (host_register r reg)))"
  by (simp add: host_register_def)

lemma run_all_host_binds_first:
  "binding_name r \<in> set (map fst (snd (run_all host_register (r # rs) reg)))"
proof -
  obtain res reg' where step: "host_register r reg = (res, reg')"
    by (cases "host_register r reg")
  with host_register_binds[of r reg] have bound: "binding_name r \<in> set (map fst reg')" by simp
  show ?thesis
  proof (cases res)
    case None
    with step run_all_host_keeps[OF bound, of rs] show ?thesis by simp
  next
    case (Some e)
    with step bound show ?thesis by simp
  qed
qed

lemma run_all_collides_at_once:
  "binding_name r \<in> set (map fst reg) \<Longrightarrow>
   run_all (traced host_register) (r # rs) (log, reg) =
     (Some (NamingCollision (binding_name r)),
      (log @ [(r, Some (NamingCollision (binding_name r)))], reg))"
  by (simp add: traced_def host_register_def)

lemma driver_calls_Cons:
  "driver_calls role Coder stack =
     Registration Factory Coder binary [enable_trace] stack # tl (driver_calls role Coder stack)"
  by (simp add: driver_calls_list)

lemma binary_factory_name:
  "binding_name (Registration Factory Coder binary [enable_trace] stack) = stack @ ''_binary_factory''"
  by (simp add: binding_name_def)

lemma second_driver_collides:
  "run_all (traced host_register) (driver_calls role2 Coder2 stack)
     ([], snd (run_all host_register (driver_calls role1 Coder1 stack) reg)) =
   (Some (NamingCollision (stack @ ''_binary_factory'')),
    ([(Registration Factory Coder2 binary [enable_trace] stack,
       Some (NamingCollision (stack @ ''_binary_factory'')))],
     snd (run_all host_register (driver_calls role1 Coder1 stack) reg)))"
proof -
  have "binding_name (Registration Factory Coder1 binary [enable_trace] stack) \<in>
      set (map fst (snd (run_all host_register
        (Registration Factory Coder1 binary [enable_trace] stack #
          tl (driver_calls role1 Coder1 stack)) reg)))"
    by (rule run_all_host_binds_first)
  then have "binding_name (Registration Factory Coder2 binary [enable_trace] stack) \<in>
      set (map fst (snd (run_all host_register (driver_calls role1 Coder1 stack) reg)))"
    by (simp only: driver_calls_Cons[symmetric] binary_factory_name)
  from run_all_collides_at_once[OF this, of "tl (driver_calls role2 Coder2 stack)" "[]"]
  show ?thesis
    by (simp only: driver_calls_Cons[symmetric] binary_factory_name append_Nil)
qed

lemma fresh_driver_run:
  "role \<noteq> Factory \<Longrightarrow>
   run_all host_register (driver_calls role Coder stack) [] =
     (None, map (\<lambda>r. (binding_name r, r)) (driver_calls role Coder stack))"
  by (cases role) (simp_all add: driver_calls_list host_register_def binding_name_def)

section \<open>The host registry: the same coder and field twice\<close>

lemma pair_calls_Cons:
  "pair_calls role Coder Fld stack =
     Registration Factory Coder Fld [enable_trace] stack # tl (pair_calls role Coder Fld stack)"
  by (simp add: pair_calls_def)

lemma factory_name:
  "binding_name (Registration Factory Coder Fld [enable_trace] stack) =
     stack @ ''_'' @ field_tag Fld @ ''_factory''"
  by (simp add: binding_name_def)

lemma run_all_collides_fst:
  "binding_name r \<in> set (map fst reg) \<Longrightarrow>
   fst (run_all host_register (r # rs) reg) = Some (NamingCollision (binding_name r))"
  by (simp add: host_register_def)

lemma second_pair_collides:
  "fst (run_all host_register (pair_calls role2 Coder2 Fld stack)
     (snd (run_all host_register (pair_calls role1 Coder1 Fld stack) reg))) =
   Some (NamingCollision (stack @ ''_'' @ field_tag Fld @ ''_factory''))"
proof -
  have "binding_name (Registration Factory Coder1 Fld [enable_trace] stack) \<in>
      set (map fst (snd (run_all host_register
        (Registration Factory Coder1 Fld [enable_trace] stack #
          tl (pair_calls role1 Coder1 Fld stack)) reg)))"
    by (rule run_all_host_binds_first)
  then have "binding_name (Registration Factory Coder2 Fld [enable_trace] stack) \<in>
      set (map fst (snd (run_all host_register (pair_calls role1 Coder1 Fld stack) reg)))"
    by (simp only: pair_calls_Cons[symmetric] factory_name)
  from run_all_collides_fst[OF this, of "tl (pair_calls role2 Coder2 Fld stack)"]
  show ?thesis
    by (simp only: pair_calls_Cons[symmetric] factory_name)
qed

section \<open>The call that fails\<close>

lemma attempts_failure_surfaces:
  "(r, Some e) \<in> set (attempts h rs st) \<Longrightarrow> fst (run_all h rs st) = Some e"
proof (induction rs arbitrary: st)
  case Nil
  then show ?case by simp
next
  case (Cons x xs)
  obtain res st' where hx: "h x st = (res, st')" by (cases "h x st")
  show ?case
  proof (cases res)
    case None
    with Cons.prems hx have "(r, Some e) \<in> set (attempts h xs st')" by simp
    from Cons.IH[OF this] show ?thesis using hx None by simp
  next
    case (Some e')
    with Cons.prems hx show ?thesis by simp
  qed
qed

lemma attempts_all_ok:
  assumes "\<forall>x \<in> set (attempts h rs st). snd x = None"
  shows "fst (run_all h rs st) = None"
proof (cases "fst (run_all h rs st)")
  case None
  then show ?thesis .
next
  case (Some e)
  from attempts_fail[OF this] obtain k where
    "attempts h rs st = map (\<lambda>r. (r, None)) (take k rs) @ [(rs ! k, Some e)]"
    by blast
  then have "(rs ! k, Some e) \<in> set (attempts h rs st)" by simp
  with assms show ?thesis by fastforce
qed

lemma attempts_shape:
  "(fst (run_all h rs st) = None \<and> attempts h rs st = map (\<lambda>r. (r, None)) rs) \<or>
   (\<exists>e k. k < length rs \<and> fst (run_all h rs st) = Some e \<and>
      attempts h rs st = map (\<lambda>r. (r, None)) (take k rs) @ [(rs ! k, Some e)])"
proof (cases "fst (run_all h rs st)")
  case None
  then show ?thesis by (simp add: attempts_ok)
next
  case (Some e)
  from attempts_fail[OF this] Some show ?thesis by blast
qed

lemma attempts_failed_call:
  assumes "(r, Some e) \<in> set (attempts h rs st)"
  shows "fst (run_all h rs st) = Some e \<and>
    (\<exists>k<length rs. r = rs ! k \<and>
       attempts h rs st = map (\<lambda>r. (r, None)) (take k rs) @ [(rs ! k, Some e)] \<and>
       snd (run_all h rs st) = foldl (\<lambda>s r. snd (h r s)) st (take (Suc k) rs))"
proof -
  have res: "fst (run_all h rs st) = Some e"
    using assms by (rule attempts_failure_surfaces)
  from attempts_fail[OF res] obtain k where k: "k < length rs"
    "attempts h rs st = map (\<lambda>r. (r, None)) (take k rs) @ [(rs ! k, Some e)]"
    "snd (run_all h rs st) = foldl (\<lambda>s r. snd (h r s)) st (take (Suc k) rs)"
    by blast
  from assms k(2) have "r = rs ! k" by auto
  with res k show ?thesis by blast
qed

section \<open>The shape of a run\<close>

lemma attempts_no_failure:
  "((\<forall>x \<in> set (attempts h rs st). snd x = None) \<longrightarrow>
      fst (run_all h rs st) = None \<and> attempts h rs st = map (\<lambda>r. (r, None)) rs) \<and>
   (fst (run_all h rs st) = None \<longrightarrow> attempts h rs st = map (\<lambda>r. (r, None)) rs)"
proof (intro conjI impI)
  assume "\<forall>x \<in> set (attempts h rs st). snd x = None"
  then show "fst (run_all h rs st) = None" by (rule attempts_all_ok)
  then show "attempts h rs st = map (\<lambda>r. (r, None)) rs" by (rule attempts_ok)
next
  assume "fst (run_all h rs st) = None"
  then show "attempts h rs st = map (\<lambda>r. (r, None)) rs" by (rule attempts_ok)
qed

lemma driver_runs_determined:
  fixes h1 :: "('c, 's1, 'e1) host" and h2 :: "('c, 's2, 'e2) host"
  shows
  "((fst (run_all h1 (driver_calls role Coder stack) st1) = None \<and>
     attempts h1 (driver_calls role Coder stack) st1 =
       map (\<lambda>r. (r, None)) (driver_calls role Coder stack)) \<or>
    (\<exists>e k. k < 8 \<and> fst (run_all h1 (driver_calls role Coder stack) st1) = Some e \<and>
       attempts h1 (driver_calls role Coder stack) st1 =
         map (\<lambda>r. (r, None)) (take k (driver_calls role Coder stack)) @
           [(driver_calls role Coder stack ! k, Some e)])) \<and>
   ((fst (run_all h2 (driver_calls role Coder stack) st2) = None \<and>
     attempts h2 (driver_calls role Coder stack) st2 =
       map (\<lambda>r. (r, None)) (driver_calls role Coder stack)) \<or>
    (\<exists>e k. k < 8 \<and> fst (run_all h2 (driver_calls role Coder stack) st2) = Some e \<and>
       attempts h2 (driver_calls role Coder stack) st2 =
         map (\<lambda>r. (r, None)) (take k (driver_calls role Coder stack)) @
           [(driver_calls role Coder stack ! k, Some e)])) \<and>
   (prefix (map fst (attempts h1 (driver_calls role Coder stack) st1))
      (map fst (attempts h2 (driver_calls role Coder stack) st2)) \<or>
    prefix (map fst (attempts h2 (driver_calls role Coder stack) st2))
      (map fst (attempts h1 (driver_calls role Coder stack) st1))) \<and>
   (fst (run_all h1 (driver_calls role Coder stack) st1) = None \<and>
    fst (run_all h2 (driver_calls role Coder stack) st2) = None \<longrightarrow>
      map fst (attempts h1 (driver_calls role Coder stack) st1) =
      map fst (attempts h2 (driver_calls role Coder stack) st2)) \<and>
   (\<forall>r \<in> set (driver_calls role Coder stack). reg_stack r = stack \<and> reg_coder r = Coder)"
proof (intro conjI)
  show "(fst (run_all h1 (driver_calls role Coder stack) st1) = None \<and>
     attempts h1 (driver_calls role Coder stack) st1 =
       map (\<lambda>r. (r, None)) (driver_calls role Coder stack)) \<or>
    (\<exists>e k. k < 8 \<and> fst (run_all h1 (driver_calls role Coder stack) st1) = Some e \<and>
       attempts h1 (driver_calls role Coder stack) st1 =
         map (\<lambda>r. (r, None)) (take k (driver_calls role Coder stack)) @
           [(driver_calls role Coder stack ! k, Some e)])"
    using attempts_shape[of h1 "driver_calls role Coder stack" st1]
    by (simp only: length_driver_calls)
  show "(fst (run_all h2 (driver_calls role Coder stack) st2) = None \<and>
     attempts h2 (driver_calls role Coder stack) st2 =
       map (\<lambda>r. (r, None)) (driver_calls role Coder stack)) \<or>
    (\<exists>e k. k < 8 \<and> fst (run_all h2 (driver_calls role Coder stack) st2) = Some e \<and>
       attempts h2 (driver_calls role Coder stack) st2 =
         map (\<lambda>r. (r, None)) (take k (driver_calls role Coder stack)) @
           [(driver_calls role Coder stack ! k, Some e)])"
    using attempts_shape[of h2 "driver_calls role Coder stack" st2]
    by (simp only: length_driver_calls)
  show "prefix (map fst (attempts h1 (driver_calls role Coder stack) st1))
      (map fst (attempts h2 (driver_calls role Coder stack) st2)) \<or>
    prefix (map fst (attempts h2 (driver_calls role Coder stack) st2))
      (map fst (attempts h1 (driver_calls role Coder stack) st1))"
    using attempts_determined[of h1 "driver_calls role Coder stack" st1 h2 st2] by (rule conjunct1)
  show "fst (run_all h1 (driver_calls role Coder stack) st1) = None \<and>
    fst (run_all h2 (driver_calls role Coder stack) st2) = None \<longrightarrow>
      map fst (attempts h1 (driver_calls role Coder stack) st1) =
      map fst (attempts h2 (driver_calls role Coder stack) st2)"
    by (simp add: attempts_ok comp_def)
  show "\<forall>r \<in> set (driver_calls role Coder stack). reg_stack r = stack \<and> reg_coder r = Coder"
  proof
    fix r assume "r \<in> set (driver_calls role Coder stack)"
    then show "reg_stack r = stack \<and> reg_coder r = Coder" by (rule driver_calls_args)
  qed
qed

section \<open>The expansion of one Driver invocation\<close>

text \<open>
  Claim C1, as stated, fails for an invocation in which a registration fails. On the
  host of the spec a second \<open>create_encoder\<close> with the same coder and stack makes one
  registrar call, which raises the naming collision, and registers nothing.
\<close>

theorem every_invocation_registers_eight_counterexample:
  "create_encoder (traced host_register) ''full_rlnc'' ''rlnc''
     ([], snd (create_encoder host_register ''full_rlnc'' ''rlnc'' [])) =
   (Some (NamingCollision ''rlnc_binary_factory''),
    ([(Registration Factory ''full_rlnc'' binary [enable_trace] ''rlnc'',
       Some (NamingCollision ''rlnc_binary_factory''))],
     snd (create_encoder host_register ''full_rlnc'' ''rlnc'' []))) \<and>
   registered (fst (snd (create_encoder (traced host_register) ''full_rlnc'' ''rlnc''
     ([], snd (create_encoder host_register ''full_rlnc'' ''rlnc'' []))))) = []"
  by (simp add: create_encoder_def create_factory_and_encoder_def factory_def encoder_def
      andthen_def traced_def host_register_def binding_name_def registered_def)

text \<open>
  Claim C1, amended. For every coder template and every stack string, an invocation of
  \<open>create_encoder\<close> or of \<open>create_decoder\<close> in which no registration fails returns
  normally and makes exactly eight registrar calls and no other: for each of the fields
  \<open>binary\<close>, \<open>binary4\<close>, \<open>binary8\<close>, \<open>binary16\<close>, in this order, the factory and then
  the encoder (or the decoder) of that field. The same holds of every invocation that
  returns normally. This holds for every host and every state of it.
\<close>

theorem driver_registers_four_pairs:
  "(let rs = [Registration Factory Coder binary [enable_trace] stack,
               Registration Encoder Coder binary [enable_trace] stack,
               Registration Factory Coder binary4 [enable_trace] stack,
               Registration Encoder Coder binary4 [enable_trace] stack,
               Registration Factory Coder binary8 [enable_trace] stack,
               Registration Encoder Coder binary8 [enable_trace] stack,
               Registration Factory Coder binary16 [enable_trace] stack,
               Registration Encoder Coder binary16 [enable_trace] stack];
        log = fst (snd (create_encoder (traced h) Coder stack ([], st)))
    in ((\<forall>x \<in> set log. snd x = None) \<longrightarrow>
          fst (create_encoder (traced h) Coder stack ([], st)) = None \<and>
          log = map (\<lambda>r. (r, None)) rs) \<and>
       (fst (create_encoder (traced h) Coder stack ([], st)) = None \<longrightarrow>
          log = map (\<lambda>r. (r, None)) rs)) \<and>
   (let rs = [Registration Factory Coder binary [enable_trace] stack,
               Registration Decoder Coder binary [enable_trace] stack,
               Registration Factory Coder binary4 [enable_trace] stack,
               Registration Decoder Coder binary4 [enable_trace] stack,
               Registration Factory Coder binary8 [enable_trace] stack,
               Registration Decoder Coder binary8 [enable_trace] stack,
               Registration Factory Coder binary16 [enable_trace] stack,
               Registration Decoder Coder binary16 [enable_trace] stack];
        log = fst (snd (create_decoder (traced h) Coder stack ([], st)))
    in ((\<forall>x \<in> set log. snd x = None) \<longrightarrow>
          fst (create_decoder (traced h) Coder stack ([], st)) = None \<and>
          log = map (\<lambda>r. (r, None)) rs) \<and>
       (fst (create_decoder (traced h) Coder stack ([], st)) = None \<longrightarrow>
          log = map (\<lambda>r. (r, None)) rs))"
  unfolding Let_def driver_calls_list[symmetric] create_encoder_traced create_decoder_traced
    fst_conv snd_conv append_Nil
  by (intro conjI attempts_no_failure)

text \<open>A host that accepts every registration and counts them.\<close>

theorem driver_registers_four_pairs_witness:
  "create_encoder (traced (\<lambda>r st. (None :: unit option, Suc st))) ''full_rlnc'' ''rlnc'' ([], 0::nat) =
     (None,
      ([(Registration Factory ''full_rlnc'' binary [enable_trace] ''rlnc'', None),
      (Registration Encoder ''full_rlnc'' binary [enable_trace] ''rlnc'', None),
      (Registration Factory ''full_rlnc'' binary4 [enable_trace] ''rlnc'', None),
      (Registration Encoder ''full_rlnc'' binary4 [enable_trace] ''rlnc'', None),
      (Registration Factory ''full_rlnc'' binary8 [enable_trace] ''rlnc'', None),
      (Registration Encoder ''full_rlnc'' binary8 [enable_trace] ''rlnc'', None),
      (Registration Factory ''full_rlnc'' binary16 [enable_trace] ''rlnc'', None),
      (Registration Encoder ''full_rlnc'' binary16 [enable_trace] ''rlnc'', None)],
      8)) \<and>
   create_decoder (traced (\<lambda>r st. (None :: unit option, Suc st))) ''full_rlnc'' ''rlnc'' ([], 0::nat) =
     (None,
      ([(Registration Factory ''full_rlnc'' binary [enable_trace] ''rlnc'', None),
      (Registration Decoder ''full_rlnc'' binary [enable_trace] ''rlnc'', None),
      (Registration Factory ''full_rlnc'' binary4 [enable_trace] ''rlnc'', None),
      (Registration Decoder ''full_rlnc'' binary4 [enable_trace] ''rlnc'', None),
      (Registration Factory ''full_rlnc'' binary8 [enable_trace] ''rlnc'', None),
      (Registration Decoder ''full_rlnc'' binary8 [enable_trace] ''rlnc'', None),
      (Registration Factory ''full_rlnc'' binary16 [enable_trace] ''rlnc'', None),
      (Registration Decoder ''full_rlnc'' binary16 [enable_trace] ''rlnc'', None)],
      8))"
  using driver_registers_four_pairs[where h = "(\<lambda>r st. (None :: unit option, Suc st))" and
      Coder = "''full_rlnc''" and stack = "''rlnc''" and st = "0::nat"]
  by (simp add: create_encoder_def create_decoder_def create_factory_and_encoder_def
      create_factory_and_decoder_def factory_def encoder_def decoder_def andthen_def traced_def)

section \<open>The order of the registrations\<close>

text \<open>
  Claim C2. Take any sequence of calls of the four functions of the header, on any
  host, and the registrations that returned normally, in the order they were made.
  Every encoder or decoder registration in it comes strictly after the factory
  registration of the same coder, field, capability list and stack. The registrations
  of a longer sequence of calls begin with those of the shorter one: what was
  registered stays registered, in place, so that a coder and field only ever go from
  unregistered to factory registered to factory and role registered.
\<close>

theorem factory_registered_before_role:
  "(let regd = registered (fst (invoke_all (traced h) invs ([], st)))
    in \<forall>j<length regd. reg_kind (regd ! j) \<noteq> Factory \<longrightarrow>
         (\<exists>i<j. regd ! i =
            Registration Factory (reg_coder (regd ! j)) (reg_field (regd ! j))
              (reg_caps (regd ! j)) (reg_stack (regd ! j)))) \<and>
   prefix (registered (fst (invoke_all (traced h) invs ([], st))))
     (registered (fst (invoke_all (traced h) (invs @ more) ([], st))))"
proof
  obtain added where "fst (invoke_all (traced h) invs ([], st)) = [] @ added"
    "factory_first (registered added)"
    using invoke_all_traced_grows[of h invs "[]" st] by blast
  then have "factory_first (registered (fst (invoke_all (traced h) invs ([], st))))"
    by simp
  then show "let regd = registered (fst (invoke_all (traced h) invs ([], st)))
    in \<forall>j<length regd. reg_kind (regd ! j) \<noteq> Factory \<longrightarrow>
         (\<exists>i<j. regd ! i =
            Registration Factory (reg_coder (regd ! j)) (reg_field (regd ! j))
              (reg_caps (regd ! j)) (reg_stack (regd ! j)))"
    by (simp add: factory_first_def as_factory_def Let_def)
next
  obtain log' st' where mid: "invoke_all (traced h) invs ([], st) = (log', st')"
    by (cases "invoke_all (traced h) invs ([], st)")
  obtain added where "fst (invoke_all (traced h) more (log', st')) = log' @ added"
    using invoke_all_traced_grows[of h more log' st'] by blast
  then have "registered (fst (invoke_all (traced h) (invs @ more) ([], st))) =
      registered log' @ registered added"
    by (simp add: invoke_all_append mid registered_append)
  then show "prefix (registered (fst (invoke_all (traced h) invs ([], st))))
     (registered (fst (invoke_all (traced h) (invs @ more) ([], st))))"
    by (simp add: mid)
qed

text \<open>
  A host that refuses the field \<open>binary8\<close>, called with \<open>create_decoder\<close> and then with
  \<open>create_factory_and_encoder\<close> for \<open>binary16\<close>: the decoder of \<open>binary4\<close> is at
  index 3 and its factory at index 2.
\<close>

theorem factory_registered_before_role_witness:
  "registered (fst (invoke_all
      (traced (\<lambda>r n. if reg_field r = binary8 then (Some ''refused'', n) else (None, Suc n)))
      [CreateDecoder ''full_rlnc'' ''rlnc''] ([], 0::nat))) =
     [Registration Factory ''full_rlnc'' binary [enable_trace] ''rlnc'',
      Registration Decoder ''full_rlnc'' binary [enable_trace] ''rlnc'',
      Registration Factory ''full_rlnc'' binary4 [enable_trace] ''rlnc'',
      Registration Decoder ''full_rlnc'' binary4 [enable_trace] ''rlnc''] \<and>
   reg_kind (registered (fst (invoke_all
      (traced (\<lambda>r n. if reg_field r = binary8 then (Some ''refused'', n) else (None, Suc n)))
      [CreateDecoder ''full_rlnc'' ''rlnc''] ([], 0::nat))) ! 3) \<noteq> Factory \<and>
   registered (fst (invoke_all
      (traced (\<lambda>r n. if reg_field r = binary8 then (Some ''refused'', n) else (None, Suc n)))
      [CreateDecoder ''full_rlnc'' ''rlnc''] ([], 0::nat))) ! 2 =
     Registration Factory ''full_rlnc'' binary4 [enable_trace] ''rlnc'' \<and>
   registered (fst (invoke_all
      (traced (\<lambda>r n. if reg_field r = binary8 then (Some ''refused'', n) else (None, Suc n)))
      ([CreateDecoder ''full_rlnc'' ''rlnc''] @
       [CreateFactoryAndEncoder ''full_rlnc'' binary16 ''rlnc'']) ([], 0::nat))) =
     [Registration Factory ''full_rlnc'' binary [enable_trace] ''rlnc'',
      Registration Decoder ''full_rlnc'' binary [enable_trace] ''rlnc'',
      Registration Factory ''full_rlnc'' binary4 [enable_trace] ''rlnc'',
      Registration Decoder ''full_rlnc'' binary4 [enable_trace] ''rlnc'',
      Registration Factory ''full_rlnc'' binary16 [enable_trace] ''rlnc'',
      Registration Encoder ''full_rlnc'' binary16 [enable_trace] ''rlnc'']"
  using factory_registered_before_role[of
      "\<lambda>r n. if reg_field r = binary8 then (Some ''refused'', n) else (None, Suc n)"
      "[CreateDecoder ''full_rlnc'' ''rlnc'']" "0::nat"
      "[CreateFactoryAndEncoder ''full_rlnc'' binary16 ''rlnc'']"]
  by (simp add: create_encoder_def create_decoder_def create_factory_and_encoder_def
      create_factory_and_decoder_def factory_def encoder_def decoder_def andthen_def traced_def
      registered_def)

section \<open>Invoking a Driver twice\<close>

text \<open>
  Claim C3. On the host of the spec a Driver invocation on the empty registry returns
  normally, and a second invocation for the same coder template and stack string,
  whatever the registry was before the first one, is not a repetition of it: its first
  registrar call, the factory of \<open>binary\<close>, finds the name bound and raises the naming
  collision, no other call is made, and the registry is left as the first invocation
  left it, with no binding of the second pass in it.
\<close>

theorem second_invocation_collides:
  "fst (create_encoder host_register Coder stack []) = None \<and>
   create_encoder (traced host_register) Coder stack
       ([], snd (create_encoder host_register Coder stack reg)) =
     (Some (NamingCollision (stack @ ''_binary_factory'')),
      ([(Registration Factory Coder binary [enable_trace] stack,
         Some (NamingCollision (stack @ ''_binary_factory'')))],
       snd (create_encoder host_register Coder stack reg))) \<and>
   fst (create_decoder host_register Coder stack []) = None \<and>
   create_decoder (traced host_register) Coder stack
       ([], snd (create_decoder host_register Coder stack reg)) =
     (Some (NamingCollision (stack @ ''_binary_factory'')),
      ([(Registration Factory Coder binary [enable_trace] stack,
         Some (NamingCollision (stack @ ''_binary_factory'')))],
       snd (create_decoder host_register Coder stack reg)))"
  by (simp add: create_encoder_run create_decoder_run second_driver_collides fresh_driver_run)

section \<open>The derived names\<close>

text \<open>
  Claim C4. On the host of the spec one Driver invocation on the empty registry binds
  eight names, the stack string followed by the tag of the field and the tag of the
  factory or of the role, and these eight names are pairwise distinct. Calling
  \<open>create_factory_and_encoder\<close> (or \<open>create_factory_and_decoder\<close>) twice for the same
  coder, field and stack always raises a naming collision in the second call, for the
  name of the factory, whatever the registry was before the first call.
\<close>

theorem derived_names_distinct_and_collide:
  "(let names = map fst (snd (create_encoder host_register Coder stack []))
    in names =
         [stack @ ''_binary_factory'', stack @ ''_binary_encoder'',
          stack @ ''_binary4_factory'', stack @ ''_binary4_encoder'',
          stack @ ''_binary8_factory'', stack @ ''_binary8_encoder'',
          stack @ ''_binary16_factory'', stack @ ''_binary16_encoder''] \<and>
       distinct names) \<and>
   (let names = map fst (snd (create_decoder host_register Coder stack []))
    in names =
         [stack @ ''_binary_factory'', stack @ ''_binary_decoder'',
          stack @ ''_binary4_factory'', stack @ ''_binary4_decoder'',
          stack @ ''_binary8_factory'', stack @ ''_binary8_decoder'',
          stack @ ''_binary16_factory'', stack @ ''_binary16_decoder''] \<and>
       distinct names) \<and>
   fst (create_factory_and_encoder host_register Coder Fld stack
         (snd (create_factory_and_encoder host_register Coder Fld stack reg))) =
     Some (NamingCollision (stack @ ''_'' @ field_tag Fld @ ''_factory'')) \<and>
   fst (create_factory_and_decoder host_register Coder Fld stack
         (snd (create_factory_and_decoder host_register Coder Fld stack reg))) =
     Some (NamingCollision (stack @ ''_'' @ field_tag Fld @ ''_factory''))"
proof -
  have names: "map fst (snd (run_all host_register (driver_calls role Coder stack) [])) =
      map binding_name (driver_calls role Coder stack)" if "role \<noteq> Factory" for role
    by (simp add: fresh_driver_run[OF that] comp_def)
  have enc: "map binding_name (driver_calls Encoder Coder stack) =
      [stack @ ''_binary_factory'', stack @ ''_binary_encoder'',
       stack @ ''_binary4_factory'', stack @ ''_binary4_encoder'',
       stack @ ''_binary8_factory'', stack @ ''_binary8_encoder'',
       stack @ ''_binary16_factory'', stack @ ''_binary16_encoder'']"
    by (simp add: driver_calls_list binding_name_def)
  have dec: "map binding_name (driver_calls Decoder Coder stack) =
      [stack @ ''_binary_factory'', stack @ ''_binary_decoder'',
       stack @ ''_binary4_factory'', stack @ ''_binary4_decoder'',
       stack @ ''_binary8_factory'', stack @ ''_binary8_decoder'',
       stack @ ''_binary16_factory'', stack @ ''_binary16_decoder'']"
    by (simp add: driver_calls_list binding_name_def)
  show ?thesis
    unfolding Let_def create_encoder_run create_decoder_run create_factory_and_encoder_run
      create_factory_and_decoder_run second_pair_collides
    by (simp add: names enc dec)
qed

section \<open>The bindings of the stack \<open>full_rlnc\<close>\<close>

text \<open>
  Claim C5. On a registry in which none of the eight names is bound, in particular on
  the empty one, \<open>create_encoder\<close> with the stack identifier \<open>full_rlnc\<close> returns
  normally and appends to the registry exactly the bindings
  \<open>full_rlnc_binary_factory\<close>, \<open>full_rlnc_binary_encoder\<close>,
  \<open>full_rlnc_binary4_factory\<close>, \<open>full_rlnc_binary4_encoder\<close>,
  \<open>full_rlnc_binary8_factory\<close>, \<open>full_rlnc_binary8_encoder\<close>,
  \<open>full_rlnc_binary16_factory\<close>, \<open>full_rlnc_binary16_encoder\<close>, in this order.
\<close>

theorem full_rlnc_encoder_bindings:
  "set (map fst reg) \<inter>
     {''full_rlnc_binary_factory'', ''full_rlnc_binary_encoder'',
      ''full_rlnc_binary4_factory'', ''full_rlnc_binary4_encoder'',
      ''full_rlnc_binary8_factory'', ''full_rlnc_binary8_encoder'',
      ''full_rlnc_binary16_factory'', ''full_rlnc_binary16_encoder''} = {} \<Longrightarrow>
   create_encoder host_register Coder ''full_rlnc'' reg =
     (None, reg @
       [(''full_rlnc_binary_factory'', Registration Factory Coder binary [enable_trace] ''full_rlnc''),
        (''full_rlnc_binary_encoder'', Registration Encoder Coder binary [enable_trace] ''full_rlnc''),
        (''full_rlnc_binary4_factory'', Registration Factory Coder binary4 [enable_trace] ''full_rlnc''),
        (''full_rlnc_binary4_encoder'', Registration Encoder Coder binary4 [enable_trace] ''full_rlnc''),
        (''full_rlnc_binary8_factory'', Registration Factory Coder binary8 [enable_trace] ''full_rlnc''),
        (''full_rlnc_binary8_encoder'', Registration Encoder Coder binary8 [enable_trace] ''full_rlnc''),
        (''full_rlnc_binary16_factory'', Registration Factory Coder binary16 [enable_trace] ''full_rlnc''),
        (''full_rlnc_binary16_encoder'', Registration Encoder Coder binary16 [enable_trace] ''full_rlnc'')])"
  by (simp add: create_encoder_def create_factory_and_encoder_def factory_def encoder_def
      andthen_def host_register_def binding_name_def)

text \<open>The scenario of the spec: the empty registry.\<close>

theorem full_rlnc_encoder_bindings_witness:
  "set (map fst ([] :: string registry)) \<inter>
     {''full_rlnc_binary_factory'', ''full_rlnc_binary_encoder'',
      ''full_rlnc_binary4_factory'', ''full_rlnc_binary4_encoder'',
      ''full_rlnc_binary8_factory'', ''full_rlnc_binary8_encoder'',
      ''full_rlnc_binary16_factory'', ''full_rlnc_binary16_encoder''} = {} \<and>
   map fst (snd (create_encoder host_register ''full_rlnc_coder'' ''full_rlnc'' [])) =
     [''full_rlnc_binary_factory'', ''full_rlnc_binary_encoder'',
      ''full_rlnc_binary4_factory'', ''full_rlnc_binary4_encoder'',
      ''full_rlnc_binary8_factory'', ''full_rlnc_binary8_encoder'',
      ''full_rlnc_binary16_factory'', ''full_rlnc_binary16_encoder''] \<and>
   fst (create_encoder host_register ''full_rlnc_coder'' ''full_rlnc'' []) = None"
  using full_rlnc_encoder_bindings[of "[]" "''full_rlnc_coder''"] by simp

section \<open>The capability list\<close>

text \<open>
  Claim C6. Every registrar call that any of the four functions makes, the factory call
  and the encoder or decoder call of the same coder and field alike, carries the same
  capability list, and this list has exactly one member, \<open>enable_trace\<close>. This holds
  for every host and every state of it, whether or not a call throws.
\<close>

theorem registrars_share_capability_list:
  "(\<forall>x \<in> set (fst (snd (create_factory_and_encoder (traced h) Coder Fld stack ([], st)))).
      reg_caps (fst x) = [enable_trace]) \<and>
   (\<forall>x \<in> set (fst (snd (create_factory_and_decoder (traced h) Coder Fld stack ([], st)))).
      reg_caps (fst x) = [enable_trace]) \<and>
   (\<forall>x \<in> set (fst (snd (create_encoder (traced h) Coder stack ([], st)))).
      reg_caps (fst x) = [enable_trace]) \<and>
   (\<forall>x \<in> set (fst (snd (create_decoder (traced h) Coder stack ([], st)))).
      reg_caps (fst x) = [enable_trace])"
  by (auto simp: create_factory_and_encoder_traced create_factory_and_decoder_traced
      create_encoder_traced create_decoder_traced
      dest!: attempts_subset dest: pair_calls_caps driver_calls_caps)

text \<open>
  The calls for the field \<open>binary8\<close> and the last call of each Driver, on a host that
  accepts every registration.
\<close>

theorem registrars_share_capability_list_witness:
  "(Registration Factory ''full_rlnc'' binary8 [enable_trace] ''rlnc'', None :: unit option) \<in>
     set (fst (snd (create_factory_and_encoder (traced (\<lambda>r st. (None, Suc st)))
       ''full_rlnc'' binary8 ''rlnc'' ([], 0::nat)))) \<and>
   (Registration Encoder ''full_rlnc'' binary8 [enable_trace] ''rlnc'', None :: unit option) \<in>
     set (fst (snd (create_factory_and_encoder (traced (\<lambda>r st. (None, Suc st)))
       ''full_rlnc'' binary8 ''rlnc'' ([], 0::nat)))) \<and>
   (Registration Decoder ''full_rlnc'' binary8 [enable_trace] ''rlnc'', None :: unit option) \<in>
     set (fst (snd (create_factory_and_decoder (traced (\<lambda>r st. (None, Suc st)))
       ''full_rlnc'' binary8 ''rlnc'' ([], 0::nat)))) \<and>
   (Registration Encoder ''full_rlnc'' binary16 [enable_trace] ''rlnc'', None :: unit option) \<in>
     set (fst (snd (create_encoder (traced (\<lambda>r st. (None, Suc st)))
       ''full_rlnc'' ''rlnc'' ([], 0::nat)))) \<and>
   (Registration Decoder ''full_rlnc'' binary16 [enable_trace] ''rlnc'', None :: unit option) \<in>
     set (fst (snd (create_decoder (traced (\<lambda>r st. (None, Suc st)))
       ''full_rlnc'' ''rlnc'' ([], 0::nat)))) \<and>
   reg_caps (Registration Factory ''full_rlnc'' binary8 [enable_trace] ''rlnc'') = [enable_trace] \<and>
   length [enable_trace] = 1"
  using registrars_share_capability_list[of "\<lambda>r st. (None :: unit option, Suc st)"
      "''full_rlnc''" binary8 "''rlnc''" "0::nat"]
  by (simp add: create_encoder_def create_decoder_def create_factory_and_encoder_def
      create_factory_and_decoder_def factory_def encoder_def decoder_def andthen_def traced_def)

section \<open>A registrar that throws\<close>

text \<open>
  Claim C7. When a registrar call \<open>r\<close> of an invocation of \<open>create_encoder\<close> or
  \<open>create_decoder\<close> fails with \<open>e\<close>, the invocation itself ends with the exception
  \<open>e\<close>: the failure is not passed over. The call \<open>r\<close> is some call \<open>k\<close> of the eight;
  the calls before it were made once each, in order, and returned normally; \<open>r\<close> is the
  last call made, so nothing of the expansion after it is run and it is not repeated;
  and the state of the host is the one that these \<open>k + 1\<close> calls left, with nothing
  undone. Conversely an invocation that ends with \<open>e\<close> has this shape. This holds for
  every host.
\<close>

theorem registration_failure_aborts:
  "(let rs = [Registration Factory Coder binary [enable_trace] stack,
              Registration Encoder Coder binary [enable_trace] stack,
              Registration Factory Coder binary4 [enable_trace] stack,
              Registration Encoder Coder binary4 [enable_trace] stack,
              Registration Factory Coder binary8 [enable_trace] stack,
              Registration Encoder Coder binary8 [enable_trace] stack,
              Registration Factory Coder binary16 [enable_trace] stack,
              Registration Encoder Coder binary16 [enable_trace] stack]
    in ((r, Some e) \<in> set (fst (snd (create_encoder (traced h) Coder stack ([], st)))) \<longrightarrow>
          fst (create_encoder (traced h) Coder stack ([], st)) = Some e \<and>
          (\<exists>k<8. r = rs ! k \<and>
             fst (snd (create_encoder (traced h) Coder stack ([], st))) =
               map (\<lambda>r. (r, None)) (take k rs) @ [(rs ! k, Some e)] \<and>
             snd (snd (create_encoder (traced h) Coder stack ([], st))) =
               foldl (\<lambda>s r. snd (h r s)) st (take (Suc k) rs))) \<and>
       (fst (create_encoder (traced h) Coder stack ([], st)) = Some e \<longrightarrow>
          (\<exists>k<8.
             fst (snd (create_encoder (traced h) Coder stack ([], st))) =
               map (\<lambda>r. (r, None)) (take k rs) @ [(rs ! k, Some e)] \<and>
             snd (snd (create_encoder (traced h) Coder stack ([], st))) =
               foldl (\<lambda>s r. snd (h r s)) st (take (Suc k) rs)))) \<and>
   (let rs = [Registration Factory Coder binary [enable_trace] stack,
              Registration Decoder Coder binary [enable_trace] stack,
              Registration Factory Coder binary4 [enable_trace] stack,
              Registration Decoder Coder binary4 [enable_trace] stack,
              Registration Factory Coder binary8 [enable_trace] stack,
              Registration Decoder Coder binary8 [enable_trace] stack,
              Registration Factory Coder binary16 [enable_trace] stack,
              Registration Decoder Coder binary16 [enable_trace] stack]
    in ((r, Some e) \<in> set (fst (snd (create_decoder (traced h) Coder stack ([], st)))) \<longrightarrow>
          fst (create_decoder (traced h) Coder stack ([], st)) = Some e \<and>
          (\<exists>k<8. r = rs ! k \<and>
             fst (snd (create_decoder (traced h) Coder stack ([], st))) =
               map (\<lambda>r. (r, None)) (take k rs) @ [(rs ! k, Some e)] \<and>
             snd (snd (create_decoder (traced h) Coder stack ([], st))) =
               foldl (\<lambda>s r. snd (h r s)) st (take (Suc k) rs))) \<and>
       (fst (create_decoder (traced h) Coder stack ([], st)) = Some e \<longrightarrow>
          (\<exists>k<8.
             fst (snd (create_decoder (traced h) Coder stack ([], st))) =
               map (\<lambda>r. (r, None)) (take k rs) @ [(rs ! k, Some e)] \<and>
             snd (snd (create_decoder (traced h) Coder stack ([], st))) =
               foldl (\<lambda>s r. snd (h r s)) st (take (Suc k) rs))))"
proof -
  have failed: "fst (run_all h (driver_calls role Coder stack) st) = Some e \<and>
      (\<exists>k<8. r = driver_calls role Coder stack ! k \<and>
        attempts h (driver_calls role Coder stack) st =
          map (\<lambda>r. (r, None)) (take k (driver_calls role Coder stack)) @
            [(driver_calls role Coder stack ! k, Some e)] \<and>
        snd (run_all h (driver_calls role Coder stack) st) =
          foldl (\<lambda>s r. snd (h r s)) st (take (Suc k) (driver_calls role Coder stack)))"
    if "(r, Some e) \<in> set (attempts h (driver_calls role Coder stack) st)" for role
    using attempts_failed_call[OF that] by (simp only: length_driver_calls)
  have raised: "\<exists>k<8. attempts h (driver_calls role Coder stack) st =
          map (\<lambda>r. (r, None)) (take k (driver_calls role Coder stack)) @
            [(driver_calls role Coder stack ! k, Some e)] \<and>
        snd (run_all h (driver_calls role Coder stack) st) =
          foldl (\<lambda>s r. snd (h r s)) st (take (Suc k) (driver_calls role Coder stack))"
    if "fst (run_all h (driver_calls role Coder stack) st) = Some e" for role
    using attempts_fail[OF that] by (simp only: length_driver_calls)
  show ?thesis
    unfolding Let_def driver_calls_list[symmetric]
    using failed[of Encoder] failed[of Decoder] raised[of Encoder] raised[of Decoder]
    by (simp add: create_encoder_traced create_decoder_traced)
qed

text \<open>
  A host that counts the registrations it accepts and refuses the field \<open>binary8\<close>:
  four registrations stay, the fifth call throws, and no call follows.
\<close>

theorem registration_failure_aborts_witness:
  "(Registration Factory ''full_rlnc'' binary8 [enable_trace] ''rlnc'', Some ''refused'') \<in>
     set (fst (snd (create_encoder
       (traced (\<lambda>r n. if reg_field r = binary8 then (Some ''refused'', n) else (None, Suc n)))
       ''full_rlnc'' ''rlnc'' ([], 0::nat)))) \<and>
   create_encoder
     (traced (\<lambda>r n. if reg_field r = binary8 then (Some ''refused'', n) else (None, Suc n)))
     ''full_rlnc'' ''rlnc'' ([], 0::nat) =
   (Some ''refused'',
    ([(Registration Factory ''full_rlnc'' binary [enable_trace] ''rlnc'', None),
      (Registration Encoder ''full_rlnc'' binary [enable_trace] ''rlnc'', None),
      (Registration Factory ''full_rlnc'' binary4 [enable_trace] ''rlnc'', None),
      (Registration Encoder ''full_rlnc'' binary4 [enable_trace] ''rlnc'', None),
      (Registration Factory ''full_rlnc'' binary8 [enable_trace] ''rlnc'', Some ''refused'')],
     4)) \<and>
   (Registration Factory ''full_rlnc'' binary8 [enable_trace] ''rlnc'', Some ''refused'') \<in>
     set (fst (snd (create_decoder
       (traced (\<lambda>r n. if reg_field r = binary8 then (Some ''refused'', n) else (None, Suc n)))
       ''full_rlnc'' ''rlnc'' ([], 0::nat)))) \<and>
   create_decoder
     (traced (\<lambda>r n. if reg_field r = binary8 then (Some ''refused'', n) else (None, Suc n)))
     ''full_rlnc'' ''rlnc'' ([], 0::nat) =
   (Some ''refused'',
    ([(Registration Factory ''full_rlnc'' binary [enable_trace] ''rlnc'', None),
      (Registration Decoder ''full_rlnc'' binary [enable_trace] ''rlnc'', None),
      (Registration Factory ''full_rlnc'' binary4 [enable_trace] ''rlnc'', None),
      (Registration Decoder ''full_rlnc'' binary4 [enable_trace] ''rlnc'', None),
      (Registration Factory ''full_rlnc'' binary8 [enable_trace] ''rlnc'', Some ''refused'')],
     4))"
  using registration_failure_aborts[where
      r = "Registration Factory ''full_rlnc'' binary8 [enable_trace] ''rlnc''" and
      e = "''refused''" and
      h = "\<lambda>r n. if reg_field r = binary8 then (Some ''refused'', n) else (None, Suc n)" and
      Coder = "''full_rlnc''" and stack = "''rlnc''" and st = "0::nat"]
  by (simp add: create_encoder_def create_decoder_def create_factory_and_encoder_def
      create_factory_and_decoder_def factory_def encoder_def decoder_def andthen_def traced_def)

section \<open>Bound on the registrar calls\<close>

text \<open>
  Claim C8. Every invocation of \<open>create_encoder\<close> or \<open>create_decoder\<close> returns, with or
  without an exception, after at least one and at most eight registrar calls (four
  fields times two registrars), for every host whose registrars return and every
  state of it. The four functions of the header are not recursive and contain no loop:
  each is a fixed sequence of calls.
\<close>

theorem driver_bounded_calls:
  "(\<exists>res added st'. create_encoder (traced h) Coder stack (log, st) = (res, (log @ added, st')) \<and>
       1 \<le> length added \<and> length added \<le> 8) \<and>
   (\<exists>res added st'. create_decoder (traced h) Coder stack (log, st) = (res, (log @ added, st')) \<and>
       1 \<le> length added \<and> length added \<le> 8)"
proof -
  have bound: "1 \<le> length (attempts h (driver_calls role Coder stack) st) \<and>
      length (attempts h (driver_calls role Coder stack) st) \<le> 8" for role
  proof -
    have "driver_calls role Coder stack \<noteq> []"
      using length_driver_calls[of role Coder stack] by auto
    then have "attempts h (driver_calls role Coder stack) st \<noteq> []"
      by (rule attempts_nonempty)
    then have "1 \<le> length (attempts h (driver_calls role Coder stack) st)"
      by (cases "attempts h (driver_calls role Coder stack) st") simp_all
    moreover have "length (attempts h (driver_calls role Coder stack) st) \<le> 8"
      using attempts_length[of h "driver_calls role Coder stack" st]
      by (simp add: length_driver_calls)
    ultimately show ?thesis by simp
  qed
  show ?thesis
    using bound[of Encoder] bound[of Decoder]
    by (simp add: create_encoder_traced create_decoder_traced)
qed

section \<open>The factory does not depend on the role\<close>

text \<open>
  Claim C9. \<open>create_factory_and_encoder\<close> and \<open>create_factory_and_decoder\<close> begin with
  the same registrar call: the factory of the coder and field, with the capability
  list \<open>enable_trace\<close> and the stack string, on every host. On the host of the spec the
  two Drivers therefore bind the same four factory names to the same four factory
  types, and whichever Driver is invoked second for the same coder template and stack
  string raises the naming collision at its first call, the factory of \<open>binary\<close>, and
  leaves the registry as it found it.
\<close>

theorem factory_registration_role_independent:
  "take 1 (fst (snd (create_factory_and_encoder (traced h) Coder Fld stack ([], st)))) =
     [(Registration Factory Coder Fld [enable_trace] stack,
       fst (h (Registration Factory Coder Fld [enable_trace] stack) st))] \<and>
   take 1 (fst (snd (create_factory_and_decoder (traced h) Coder Fld stack ([], st)))) =
     [(Registration Factory Coder Fld [enable_trace] stack,
       fst (h (Registration Factory Coder Fld [enable_trace] stack) st))] \<and>
   filter (\<lambda>x. reg_kind (snd x) = Factory) (snd (create_encoder host_register Coder stack [])) =
     [(stack @ ''_binary_factory'', Registration Factory Coder binary [enable_trace] stack),
      (stack @ ''_binary4_factory'', Registration Factory Coder binary4 [enable_trace] stack),
      (stack @ ''_binary8_factory'', Registration Factory Coder binary8 [enable_trace] stack),
      (stack @ ''_binary16_factory'', Registration Factory Coder binary16 [enable_trace] stack)] \<and>
   filter (\<lambda>x. reg_kind (snd x) = Factory) (snd (create_decoder host_register Coder stack [])) =
     [(stack @ ''_binary_factory'', Registration Factory Coder binary [enable_trace] stack),
      (stack @ ''_binary4_factory'', Registration Factory Coder binary4 [enable_trace] stack),
      (stack @ ''_binary8_factory'', Registration Factory Coder binary8 [enable_trace] stack),
      (stack @ ''_binary16_factory'', Registration Factory Coder binary16 [enable_trace] stack)] \<and>
   create_decoder (traced host_register) Coder stack
       ([], snd (create_encoder host_register Coder stack reg)) =
     (Some (NamingCollision (stack @ ''_binary_factory'')),
      ([(Registration Factory Coder binary [enable_trace] stack,
         Some (NamingCollision (stack @ ''_binary_factory'')))],
       snd (create_encoder host_register Coder stack reg))) \<and>
   create_encoder (traced host_register) Coder stack
       ([], snd (create_decoder host_register Coder stack reg)) =
     (Some (NamingCollision (stack @ ''_binary_factory'')),
      ([(Registration Factory Coder binary [enable_trace] stack,
         Some (NamingCollision (stack @ ''_binary_factory'')))],
       snd (create_decoder host_register Coder stack reg)))"
proof -
  have first: "take (Suc 0) (attempts h (pair_calls role Coder Fld stack) st) =
      [(Registration Factory Coder Fld [enable_trace] stack,
        fst (h (Registration Factory Coder Fld [enable_trace] stack) st))]" for role
    by (simp add: pair_calls_def split: prod.splits option.splits)
  have factories: "filter (\<lambda>x. reg_kind (snd x) = Factory)
        (snd (run_all host_register (driver_calls role Coder stack) [])) =
     [(stack @ ''_binary_factory'', Registration Factory Coder binary [enable_trace] stack),
      (stack @ ''_binary4_factory'', Registration Factory Coder binary4 [enable_trace] stack),
      (stack @ ''_binary8_factory'', Registration Factory Coder binary8 [enable_trace] stack),
      (stack @ ''_binary16_factory'', Registration Factory Coder binary16 [enable_trace] stack)]"
    if "role \<noteq> Factory" for role
    unfolding fresh_driver_run[OF that] snd_conv
    using that by (simp add: driver_calls_list binding_name_def)
  show ?thesis
    by (simp add: create_factory_and_encoder_traced create_factory_and_decoder_traced first
        create_encoder_run create_decoder_run factories second_driver_collides)
qed

section \<open>Determinism of the Driver\<close>

text \<open>
  Claim C10, as stated, fails: the calls that an invocation makes depend on which
  registrar throws. On the host of the spec a first \<open>create_encoder\<close> on the empty
  registry makes eight calls, and a second one, with the same coder and stack, makes
  one call only.
\<close>

theorem identical_call_sequences_counterexample:
  "map fst (fst (snd (create_encoder (traced host_register) ''full_rlnc'' ''rlnc'' ([], [])))) \<noteq>
   map fst (fst (snd (create_encoder (traced host_register) ''full_rlnc'' ''rlnc''
     ([], snd (create_encoder host_register ''full_rlnc'' ''rlnc'' [])))))"
  by (simp add: create_encoder_def create_factory_and_encoder_def factory_def encoder_def
      andthen_def traced_def host_register_def binding_name_def)

text \<open>
  Claim C10, amended. For a fixed coder template, role and stack string there is one
  fixed sequence of eight registrar calls, written out below, in which every call
  carries the coder template and the stack string the Driver was given. Take two
  invocations on any two hosts in any two states. Each of them either returns normally
  after making exactly these eight calls, or ends with the exception of its first
  failing call \<open>k\<close> after making the calls before \<open>k\<close>, which returned normally, and
  then the call \<open>k\<close>, and no other. So the calls of one invocation are an initial
  segment of the calls of the other, and when neither invocation has a failing call the
  two sequences are identical. The Driver reads nothing but its arguments, the sequence
  being the same on every host and in every state, and it hands the stack string on as
  it received it.
\<close>

theorem driver_calls_determined:
  fixes h1 :: "('c, 's1, 'e1) host" and h2 :: "('c, 's2, 'e2) host"
  shows
  "(let rs = [Registration Factory Coder binary [enable_trace] stack,
               Registration Encoder Coder binary [enable_trace] stack,
               Registration Factory Coder binary4 [enable_trace] stack,
               Registration Encoder Coder binary4 [enable_trace] stack,
               Registration Factory Coder binary8 [enable_trace] stack,
               Registration Encoder Coder binary8 [enable_trace] stack,
               Registration Factory Coder binary16 [enable_trace] stack,
               Registration Encoder Coder binary16 [enable_trace] stack];
        calls1 = map fst (fst (snd (create_encoder (traced h1) Coder stack ([], st1))));
        calls2 = map fst (fst (snd (create_encoder (traced h2) Coder stack ([], st2))))
    in ((fst (create_encoder (traced h1) Coder stack ([], st1)) = None \<and>
         fst (snd (create_encoder (traced h1) Coder stack ([], st1))) = map (\<lambda>r. (r, None)) rs) \<or>
        (\<exists>e k. k < 8 \<and> fst (create_encoder (traced h1) Coder stack ([], st1)) = Some e \<and>
           fst (snd (create_encoder (traced h1) Coder stack ([], st1))) =
             map (\<lambda>r. (r, None)) (take k rs) @ [(rs ! k, Some e)])) \<and>
       ((fst (create_encoder (traced h2) Coder stack ([], st2)) = None \<and>
         fst (snd (create_encoder (traced h2) Coder stack ([], st2))) = map (\<lambda>r. (r, None)) rs) \<or>
        (\<exists>e k. k < 8 \<and> fst (create_encoder (traced h2) Coder stack ([], st2)) = Some e \<and>
           fst (snd (create_encoder (traced h2) Coder stack ([], st2))) =
             map (\<lambda>r. (r, None)) (take k rs) @ [(rs ! k, Some e)])) \<and>
       (prefix calls1 calls2 \<or> prefix calls2 calls1) \<and>
       (fst (create_encoder (traced h1) Coder stack ([], st1)) = None \<and>
        fst (create_encoder (traced h2) Coder stack ([], st2)) = None \<longrightarrow> calls1 = calls2) \<and>
       (\<forall>r \<in> set rs. reg_stack r = stack \<and> reg_coder r = Coder)) \<and>
   (let rs = [Registration Factory Coder binary [enable_trace] stack,
               Registration Decoder Coder binary [enable_trace] stack,
               Registration Factory Coder binary4 [enable_trace] stack,
               Registration Decoder Coder binary4 [enable_trace] stack,
               Registration Factory Coder binary8 [enable_trace] stack,
               Registration Decoder Coder binary8 [enable_trace] stack,
               Registration Factory Coder binary16 [enable_trace] stack,
               Registration Decoder Coder binary16 [enable_trace] stack];
        calls1 = map fst (fst (snd (create_decoder (traced h1) Coder stack ([], st1))));
        calls2 = map fst (fst (snd (create_decoder (traced h2) Coder stack ([], st2))))
    in ((fst (create_decoder (traced h1) Coder stack ([], st1)) = None \<and>
         fst (snd (create_decoder (traced h1) Coder stack ([], st1))) = map (\<lambda>r. (r, None)) rs) \<or>
        (\<exists>e k. k < 8 \<and> fst (create_decoder (traced h1) Coder stack ([], st1)) = Some e \<and>
           fst (snd (create_decoder (traced h1) Coder stack ([], st1))) =
             map (\<lambda>r. (r, None)) (take k rs) @ [(rs ! k, Some e)])) \<and>
       ((fst (create_decoder (traced h2) Coder stack ([], st2)) = None \<and>
         fst (snd (create_decoder (traced h2) Coder stack ([], st2))) = map (\<lambda>r. (r, None)) rs) \<or>
        (\<exists>e k. k < 8 \<and> fst (create_decoder (traced h2) Coder stack ([], st2)) = Some e \<and>
           fst (snd (create_decoder (traced h2) Coder stack ([], st2))) =
             map (\<lambda>r. (r, None)) (take k rs) @ [(rs ! k, Some e)])) \<and>
       (prefix calls1 calls2 \<or> prefix calls2 calls1) \<and>
       (fst (create_decoder (traced h1) Coder stack ([], st1)) = None \<and>
        fst (create_decoder (traced h2) Coder stack ([], st2)) = None \<longrightarrow> calls1 = calls2) \<and>
       (\<forall>r \<in> set rs. reg_stack r = stack \<and> reg_coder r = Coder))"
  unfolding Let_def driver_calls_list[symmetric] create_encoder_traced create_decoder_traced
    fst_conv snd_conv append_Nil
  by (intro conjI driver_runs_determined)

text \<open>Two invocations on a host that accepts every registration, in two states.\<close>

theorem driver_calls_determined_witness:
  "map fst (fst (snd (create_encoder (traced (\<lambda>r n. (None :: unit option, Suc n)))
      ''full_rlnc'' ''rlnc'' ([], 0::nat)))) =
   map fst (fst (snd (create_encoder (traced (\<lambda>r n. (None :: unit option, Suc n)))
      ''full_rlnc'' ''rlnc'' ([], 8::nat)))) \<and>
   fst (create_encoder (traced (\<lambda>r n. (None :: unit option, Suc n)))
      ''full_rlnc'' ''rlnc'' ([], 0::nat)) = None \<and>
   fst (create_encoder (traced (\<lambda>r n. (None :: unit option, Suc n)))
      ''full_rlnc'' ''rlnc'' ([], 8::nat)) = None \<and>
   map fst (fst (snd (create_decoder (traced (\<lambda>r n. (None :: unit option, Suc n)))
      ''full_rlnc'' ''rlnc'' ([], 0::nat)))) =
   map fst (fst (snd (create_decoder (traced (\<lambda>r n. (None :: unit option, Suc n)))
      ''full_rlnc'' ''rlnc'' ([], 8::nat)))) \<and>
   fst (create_decoder (traced (\<lambda>r n. (None :: unit option, Suc n)))
      ''full_rlnc'' ''rlnc'' ([], 0::nat)) = None \<and>
   fst (create_decoder (traced (\<lambda>r n. (None :: unit option, Suc n)))
      ''full_rlnc'' ''rlnc'' ([], 8::nat)) = None \<and>
   Registration Encoder ''full_rlnc'' binary16 [enable_trace] ''rlnc'' \<in>
     set (map fst (fst (snd (create_encoder (traced (\<lambda>r n. (None :: unit option, Suc n)))
      ''full_rlnc'' ''rlnc'' ([], 0::nat))))) \<and>
   reg_stack (Registration Encoder ''full_rlnc'' binary16 [enable_trace] ''rlnc'') = ''rlnc''"
  using driver_calls_determined[where ?h1.0 = "\<lambda>r n. (None :: unit option, Suc n)" and
      ?h2.0 = "\<lambda>r n. (None :: unit option, Suc n)" and Coder = "''full_rlnc''" and
      stack = "''rlnc''" and ?st1.0 = "0::nat" and ?st2.0 = "8::nat"]
  by (simp add: create_encoder_def create_decoder_def create_factory_and_encoder_def
      create_factory_and_decoder_def factory_def encoder_def decoder_def andthen_def traced_def)

end
